theory Spec2Isabelle
  imports Main "HOL-Library.Word" "HOL-Library.Multiset"
begin

section \<open>Package rnd: a pre-seeded, periodically re-seeded random source\<close>

text \<open>
  The package (\<^verbatim>\<open>rnd.go\<close>) keeps two package-level variables, the generator \<^verbatim>\<open>global\<close>
  and the counter \<^verbatim>\<open>calls\<close>, and wraps every method of the generator in a function that
  accounts for the randomness it used (\<^verbatim>\<open>reseed\<close>).

  Conventions of the model.
  \<^item> Go's signed integers (\<^verbatim>\<open>int\<close>, \<^verbatim>\<open>int64\<close>, \<^verbatim>\<open>int32\<close>) are HOL integers; the one place
    where the width matters, the conversion \<^verbatim>\<open>uint64(n)\<close> in \<^verbatim>\<open>reseed\<close>, is written out
    as \<open>word_of_int\<close> (two's complement, modulo \<open>2 ^ 64\<close>). \<^verbatim>\<open>uint64\<close> and \<^verbatim>\<open>uint32\<close>
    are \<open>64 word\<close> and \<open>32 word\<close>, whose addition wraps around.
  \<^item> A slice is a list; \<^verbatim>\<open>nil\<close> and the empty slice are both \<open>[]\<close>. A function that
    writes into a slice of its caller returns the new contents.
  \<^item> A panic is a value: every call yields \<open>Inl p\<close> (the panic \<open>p\<close> propagates) or
    \<open>Inr v\<close> (it returns \<open>v\<close>), together with the state it leaves behind.
  \<^item> The model is sequential: it describes one call running from start to end.
    \<^verbatim>\<open>atomic.AddUint64\<close> is the addition that returns the new value.
\<close>

datatype panic = InvalidArgument | RuntimeError

subsection \<open>The generator, taken as a parameter\<close>

text \<open>
  The generator is \<^verbatim>\<open>rand.New(new(rand.LockedSource))\<close> of \<^verbatim>\<open>golang.org/x/exp/rand\<close>, a
  dependency whose code is not part of the package. The model takes it as a parameter:
  a state type \<open>'s\<close> and one function for each method the package calls. \<open>'f\<close> stands for
  floating-point values, which the model does not look into.

  \<^verbatim>\<open>Shuffle(n, swap)\<close> acts on its caller only through the calls of \<^verbatim>\<open>swap\<close> it makes. A
  run of it is the sequence of these calls, each with the state of the generator at that
  moment, then how the method ends (\<open>finish\<close>: it returns, or it panics) and in which
  state (\<open>final\<close>).
\<close>

record 's shuffle_run =
  swaps :: "(int \<times> int \<times> 's) list"
  finish :: "panic option"
  final :: 's

record ('s, 'f) engine =
  rand_Seed :: "64 word \<Rightarrow> 's \<Rightarrow> 's"
  rand_Int63 :: "'s \<Rightarrow> (panic + int) \<times> 's"
  rand_Uint32 :: "'s \<Rightarrow> (panic + 32 word) \<times> 's"
  rand_Uint64 :: "'s \<Rightarrow> (panic + 64 word) \<times> 's"
  rand_Int31 :: "'s \<Rightarrow> (panic + int) \<times> 's"
  rand_Int :: "'s \<Rightarrow> (panic + int) \<times> 's"
  rand_Int63n :: "int \<Rightarrow> 's \<Rightarrow> (panic + int) \<times> 's"
  rand_Int31n :: "int \<Rightarrow> 's \<Rightarrow> (panic + int) \<times> 's"
  rand_Intn :: "int \<Rightarrow> 's \<Rightarrow> (panic + int) \<times> 's"
  rand_Float64 :: "'s \<Rightarrow> (panic + 'f) \<times> 's"
  rand_Float32 :: "'s \<Rightarrow> (panic + 'f) \<times> 's"
  rand_Perm :: "int \<Rightarrow> 's \<Rightarrow> (panic + int list) \<times> 's"
  rand_Shuffle :: "int \<Rightarrow> 's \<Rightarrow> 's shuffle_run"
  rand_Read :: "8 word list \<Rightarrow> 's \<Rightarrow> (panic + int \<times> string option) \<times> 8 word list \<times> 's"
  rand_NormFloat64 :: "'s \<Rightarrow> (panic + 'f) \<times> 's"
  rand_ExpFloat64 :: "'s \<Rightarrow> (panic + 'f) \<times> 's"

subsection \<open>The package-level state\<close>

text \<open>
  \<open>global\<close> is the state of the generator and \<open>calls\<close> the counter. Every
  \<^verbatim>\<open>new(maphash.Hash).Sum64()\<close> yields a value that the program does not determine:
  \<open>entropy w k\<close> is the value that the \<open>k\<close>-th such call yields, and \<open>drawn\<close> counts the
  calls made so far.
\<close>

record 's world =
  global :: 's
  calls :: "64 word"
  entropy :: "nat \<Rightarrow> 64 word"
  drawn :: nat

definition MaxUint32 :: "64 word" where
  "MaxUint32 = 4294967295"

definition Sum64 :: "'s world \<Rightarrow> 64 word \<times> 's world" where
  "Sum64 w = (entropy w (drawn w), w\<lparr>drawn := Suc (drawn w)\<rparr>)"

definition init :: "('s, 'f) engine \<Rightarrow> 's \<Rightarrow> (nat \<Rightarrow> 64 word) \<Rightarrow> 's world" where
  "init E s0 e =
     (case Sum64 \<lparr>global = s0, calls = 0, entropy = e, drawn = 0\<rparr> of
        (v, w) \<Rightarrow> w\<lparr>global := rand_Seed E v (global w)\<rparr>)"

definition AddUint64 :: "64 word \<Rightarrow> 's world \<Rightarrow> 64 word \<times> 's world" where
  "AddUint64 delta w = (calls w + delta, w\<lparr>calls := calls w + delta\<rparr>)"

definition reseed :: "('s, 'f) engine \<Rightarrow> int \<Rightarrow> 's world \<Rightarrow> 's world" where
  "reseed E n w =
     (case AddUint64 (word_of_int n) w of
        (c, w1) \<Rightarrow>
          if c > MaxUint32
          then (case Sum64 w1 of (v, w2) \<Rightarrow> w2\<lparr>global := rand_Seed E v (global w2)\<rparr>)
          else w1)"

subsection \<open>The public functions\<close>

text \<open>
  \<^verbatim>\<open>defer reseed(n); return global.M(...)\<close>: the argument \<open>n\<close> is evaluated first, the method
  runs, and \<^verbatim>\<open>reseed(n)\<close> runs when the function is left, whether the method returned or
  panicked.
\<close>

definition deferred ::
  "('s, 'f) engine \<Rightarrow> int \<Rightarrow> ('s \<Rightarrow> 'r \<times> 's) \<Rightarrow> 's world \<Rightarrow> 'r \<times> 's world" where
  "deferred E n m w = (case m (global w) of (r, s) \<Rightarrow> (r, reseed E n (w\<lparr>global := s\<rparr>)))"

definition Int63 :: "('s, 'f) engine \<Rightarrow> 's world \<Rightarrow> (panic + int) \<times> 's world" where
  "Int63 E = deferred E 1 (rand_Int63 E)"

definition Uint32 :: "('s, 'f) engine \<Rightarrow> 's world \<Rightarrow> (panic + 32 word) \<times> 's world" where
  "Uint32 E = deferred E 1 (rand_Uint32 E)"

definition Uint64 :: "('s, 'f) engine \<Rightarrow> 's world \<Rightarrow> (panic + 64 word) \<times> 's world" where
  "Uint64 E = deferred E 1 (rand_Uint64 E)"

definition Int31 :: "('s, 'f) engine \<Rightarrow> 's world \<Rightarrow> (panic + int) \<times> 's world" where
  "Int31 E = deferred E 1 (rand_Int31 E)"

text \<open>\<^verbatim>\<open>Int\<close> of the package; the name \<open>Int\<close> is taken in HOL.\<close>

definition Int' :: "('s, 'f) engine \<Rightarrow> 's world \<Rightarrow> (panic + int) \<times> 's world" where
  "Int' E = deferred E 1 (rand_Int E)"

definition Int63n :: "('s, 'f) engine \<Rightarrow> int \<Rightarrow> 's world \<Rightarrow> (panic + int) \<times> 's world" where
  "Int63n E n = deferred E 1 (rand_Int63n E n)"

definition Int31n :: "('s, 'f) engine \<Rightarrow> int \<Rightarrow> 's world \<Rightarrow> (panic + int) \<times> 's world" where
  "Int31n E n = deferred E 1 (rand_Int31n E n)"

definition Intn :: "('s, 'f) engine \<Rightarrow> int \<Rightarrow> 's world \<Rightarrow> (panic + int) \<times> 's world" where
  "Intn E n = deferred E 1 (rand_Intn E n)"

definition Float64 :: "('s, 'f) engine \<Rightarrow> 's world \<Rightarrow> (panic + 'f) \<times> 's world" where
  "Float64 E = deferred E 1 (rand_Float64 E)"

definition Float32 :: "('s, 'f) engine \<Rightarrow> 's world \<Rightarrow> (panic + 'f) \<times> 's world" where
  "Float32 E = deferred E 1 (rand_Float32 E)"

definition Perm :: "('s, 'f) engine \<Rightarrow> int \<Rightarrow> 's world \<Rightarrow> (panic + int list) \<times> 's world" where
  "Perm E n = deferred E n (rand_Perm E n)"

text \<open>
  The function literal of \<^verbatim>\<open>Shuffle\<close>, \<^verbatim>\<open>s[i], s[j] = s[j], s[i]\<close>: both elements are read
  before either is written, and an index outside the slice is a run-time panic that
  leaves the slice as it was.
\<close>

definition swap :: "int \<Rightarrow> int \<Rightarrow> 'a list \<Rightarrow> panic + 'a list" where
  "swap i j s =
     (if 0 \<le> i \<and> i < int (length s) \<and> 0 \<le> j \<and> j < int (length s)
      then Inr (s[nat i := s ! nat j, nat j := s ! nat i])
      else Inl RuntimeError)"

text \<open>
  The calls of \<^verbatim>\<open>swap\<close> that a run of the generator's \<^verbatim>\<open>Shuffle\<close> makes, in order. A call
  that panics ends the run there, in the state the generator had at that call.
\<close>

fun run_swaps :: "(int \<times> int \<times> 's) list \<Rightarrow> 'a list \<Rightarrow> (panic \<times> 's) option \<times> 'a list" where
  "run_swaps [] s = (None, s)"
| "run_swaps ((i, j, t) # cs) s =
     (case swap i j s of
        Inl p \<Rightarrow> (Some (p, t), s)
      | Inr s' \<Rightarrow> run_swaps cs s')"

text \<open>
  \<^verbatim>\<open>Shuffle\<close> is the one function that calls \<^verbatim>\<open>reseed\<close> in a plain statement after the
  method: a panic coming out of \<^verbatim>\<open>global.Shuffle\<close> leaves the function before that
  statement. The result is the outcome, the slice as the call leaves it, and the state.
\<close>

definition Shuffle ::
  "('s, 'f) engine \<Rightarrow> 'a list \<Rightarrow> 's world \<Rightarrow> (panic + unit) \<times> 'a list \<times> 's world" where
  "Shuffle E s w =
     (let r = rand_Shuffle E (int (length s)) (global w) in
      case run_swaps (swaps r) s of
        (Some (p, t), s') \<Rightarrow> (Inl p, s', w\<lparr>global := t\<rparr>)
      | (None, s') \<Rightarrow>
          (case finish r of
             Some p \<Rightarrow> (Inl p, s', w\<lparr>global := final r\<rparr>)
           | None \<Rightarrow> (Inr (), s', reseed E (int (length s)) (w\<lparr>global := final r\<rparr>))))"

text \<open>
  \<^verbatim>\<open>defer reseed(len(p) / 8)\<close>: the length is not negative, so Go's truncating division
  is \<open>div\<close>. The result is the outcome \<^verbatim>\<open>(n, err)\<close>, the buffer as the call leaves it, and
  the state.
\<close>

definition Read ::
  "('s, 'f) engine \<Rightarrow> 8 word list \<Rightarrow> 's world \<Rightarrow>
     (panic + int \<times> string option) \<times> 8 word list \<times> 's world" where
  "Read E p w =
     (case rand_Read E p (global w) of
        (r, p', s) \<Rightarrow> (r, p', reseed E (int (length p) div 8) (w\<lparr>global := s\<rparr>)))"

definition NormFloat64 :: "('s, 'f) engine \<Rightarrow> 's world \<Rightarrow> (panic + 'f) \<times> 's world" where
  "NormFloat64 E = deferred E 1 (rand_NormFloat64 E)"

definition ExpFloat64 :: "('s, 'f) engine \<Rightarrow> 's world \<Rightarrow> (panic + 'f) \<times> 's world" where
  "ExpFloat64 E = deferred E 1 (rand_ExpFloat64 E)"

subsection \<open>The public functions as one interface\<close>

text \<open>
  To speak about every public function at once: an \<open>operation\<close> is a call of one of
  them with its arguments, and \<open>call\<close> runs it. What \<open>call\<close> yields is the outcome (with
  the slice or buffer of the caller after a call that returned) and the state.
\<close>

datatype 'a operation =
    OpInt63 | OpUint32 | OpUint64 | OpInt31 | OpInt
  | OpInt63n int | OpInt31n int | OpIntn int
  | OpFloat64 | OpFloat32
  | OpPerm int | OpShuffle "'a list" | OpRead "8 word list"
  | OpNormFloat64 | OpExpFloat64

datatype ('a, 'f) returned =
    RetInt int | RetUint32 "32 word" | RetUint64 "64 word" | RetFloat 'f
  | RetPerm "int list" | RetShuffle "'a list" | RetRead "8 word list" int "string option"

definition returning :: "('v \<Rightarrow> 'u) \<Rightarrow> (panic + 'v) \<times> 'w \<Rightarrow> (panic + 'u) \<times> 'w" where
  "returning f x = (case x of (r, w) \<Rightarrow> (map_sum id f r, w))"

fun call ::
  "('s, 'f) engine \<Rightarrow> 'a operation \<Rightarrow> 's world \<Rightarrow> (panic + ('a, 'f) returned) \<times> 's world" where
  "call E OpInt63 w = returning RetInt (Int63 E w)"
| "call E OpUint32 w = returning RetUint32 (Uint32 E w)"
| "call E OpUint64 w = returning RetUint64 (Uint64 E w)"
| "call E OpInt31 w = returning RetInt (Int31 E w)"
| "call E OpInt w = returning RetInt (Int' E w)"
| "call E (OpInt63n n) w = returning RetInt (Int63n E n w)"
| "call E (OpInt31n n) w = returning RetInt (Int31n E n w)"
| "call E (OpIntn n) w = returning RetInt (Intn E n w)"
| "call E OpFloat64 w = returning RetFloat (Float64 E w)"
| "call E OpFloat32 w = returning RetFloat (Float32 E w)"
| "call E (OpPerm n) w = returning RetPerm (Perm E n w)"
| "call E (OpShuffle s) w =
     (case Shuffle E s w of (r, s', w') \<Rightarrow> returning (\<lambda>_. RetShuffle s') (r, w'))"
| "call E (OpRead p) w =
     (case Read E p w of (r, p', w') \<Rightarrow> returning (\<lambda>(n, err). RetRead p' n err) (r, w'))"
| "call E OpNormFloat64 w = returning RetFloat (NormFloat64 E w)"
| "call E OpExpFloat64 w = returning RetFloat (ExpFloat64 E w)"

text \<open>
  The units charged, as the table of the specification gives them: the size for a
  permutation and a shuffle, the byte count divided by 8 (rounded down) for a buffer,
  and 1 for every other operation.
\<close>

fun charge :: "'a operation \<Rightarrow> int" where
  "charge (OpPerm n) = n"
| "charge (OpShuffle s) = int (length s)"
| "charge (OpRead p) = int (length p) div 8"
| "charge _ = 1"

text \<open>
  The state of the generator when its own method has ended and \<^verbatim>\<open>reseed\<close> has not run
  yet.
\<close>

fun drawn_state :: "('s, 'f) engine \<Rightarrow> 'a operation \<Rightarrow> 's \<Rightarrow> 's" where
  "drawn_state E OpInt63 t = snd (rand_Int63 E t)"
| "drawn_state E OpUint32 t = snd (rand_Uint32 E t)"
| "drawn_state E OpUint64 t = snd (rand_Uint64 E t)"
| "drawn_state E OpInt31 t = snd (rand_Int31 E t)"
| "drawn_state E OpInt t = snd (rand_Int E t)"
| "drawn_state E (OpInt63n n) t = snd (rand_Int63n E n t)"
| "drawn_state E (OpInt31n n) t = snd (rand_Int31n E n t)"
| "drawn_state E (OpIntn n) t = snd (rand_Intn E n t)"
| "drawn_state E OpFloat64 t = snd (rand_Float64 E t)"
| "drawn_state E OpFloat32 t = snd (rand_Float32 E t)"
| "drawn_state E (OpPerm n) t = snd (rand_Perm E n t)"
| "drawn_state E (OpShuffle s) t = final (rand_Shuffle E (int (length s)) t)"
| "drawn_state E (OpRead p) t = snd (snd (rand_Read E p t))"
| "drawn_state E OpNormFloat64 t = snd (rand_NormFloat64 E t)"
| "drawn_state E OpExpFloat64 t = snd (rand_ExpFloat64 E t)"

fun is_Shuffle :: "'a operation \<Rightarrow> bool" where
  "is_Shuffle (OpShuffle s) = True"
| "is_Shuffle _ = False"

subsection \<open>What the specification says of the generator\<close>

text \<open>
  Modelled from the spec: the bounded generators of the engine (\<^verbatim>\<open>Int63n\<close>, \<^verbatim>\<open>Int31n\<close>
  and \<^verbatim>\<open>Intn\<close> of \<^verbatim>\<open>golang.org/x/exp/rand\<close>, whose code is not in the package). The
  specification: "returns uniform value in [0, n_bound); fails (invalid-argument / panic)
  if n_bound \<le> 0".
\<close>

definition bounded_contract :: "(int \<Rightarrow> 's \<Rightarrow> (panic + int) \<times> 's) \<Rightarrow> bool" where
  "bounded_contract m \<longleftrightarrow>
     (\<forall>b t. fst (m b t) \<in> (if b \<le> 0 then {Inl InvalidArgument} else Inr ` {0..<b}))"

text \<open>
  Modelled from the spec: the engine's \<^verbatim>\<open>Perm\<close> (not in the package). The specification:
  "returns a random permutation of integers [0, n) as an owned sequence", for \<open>n \<ge> 0\<close>.
\<close>

definition perm_contract :: "(int \<Rightarrow> 's \<Rightarrow> (panic + int list) \<times> 's) \<Rightarrow> bool" where
  "perm_contract m \<longleftrightarrow>
     (\<forall>n t. 0 \<le> n \<longrightarrow> (\<exists>xs. fst (m n t) = Inr xs \<and> mset xs = mset [0..n - 1]))"

text \<open>
  Modelled from the spec: the engine's \<^verbatim>\<open>Read\<close> (not in the package). The specification:
  "writes exactly n pseudo-random bytes into caller-supplied buffer, returns (n, no error)
  always"; the comment of \<^verbatim>\<open>Read\<close> in \<^verbatim>\<open>rnd.go\<close> says the same.
\<close>

definition read_contract ::
  "(8 word list \<Rightarrow> 's \<Rightarrow> (panic + int \<times> string option) \<times> 8 word list \<times> 's) \<Rightarrow> bool" where
  "read_contract m \<longleftrightarrow>
     (\<forall>p t. fst (m p t) = Inr (int (length p), None) \<and> length (fst (snd (m p t))) = length p)"

text \<open>
  Modelled from the spec: the engine's \<^verbatim>\<open>Shuffle\<close> (not in the package). The
  specification: the shuffle works "purely through index-based swaps" of the sequence of
  length \<open>n\<close>, and "no operation can fail except by the documented panics of its size
  argument": for \<open>n \<ge> 0\<close> the method returns, and every call of \<^verbatim>\<open>swap\<close> it makes has
  both indices in \<open>[0, n)\<close>.
\<close>

definition shuffle_contract :: "(int \<Rightarrow> 's \<Rightarrow> 's shuffle_run) \<Rightarrow> bool" where
  "shuffle_contract m \<longleftrightarrow>
     (\<forall>n t. 0 \<le> n \<longrightarrow>
        finish (m n t) = None \<and>
        (\<forall>(i, j, u) \<in> set (swaps (m n t)). 0 \<le> i \<and> i < n \<and> 0 \<le> j \<and> j < n))"

subsection \<open>A generator to run the functions on\<close>

text \<open>
  To evaluate the public functions on concrete inputs the parameter needs a value. \<open>lcg\<close>
  is a small generator with the interface above; it is not the one of
  \<^verbatim>\<open>golang.org/x/exp/rand\<close>. Its state is one 64-bit word, advanced by a linear
  congruential step; seeding replaces the state; a bounded draw reduces the new state
  modulo the bound; a shuffle of \<open>n\<close> elements swaps the positions \<open>i = n - 1, \<dots>, 1\<close> with
  a position drawn from \<open>[0, i]\<close>; a permutation is the shuffle of \<open>[0, \<dots>, n - 1]\<close>.
\<close>

definition lcg_next :: "64 word \<Rightarrow> 64 word" where
  "lcg_next t = t * 6364136223846793005 + 1442695040888963407"

definition lcg_draw :: "(64 word \<Rightarrow> 'v) \<Rightarrow> 64 word \<Rightarrow> (panic + 'v) \<times> 64 word" where
  "lcg_draw f t = (Inr (f (lcg_next t)), lcg_next t)"

definition lcg_bounded :: "int \<Rightarrow> 64 word \<Rightarrow> (panic + int) \<times> 64 word" where
  "lcg_bounded b t =
     (if b \<le> 0 then (Inl InvalidArgument, t) else lcg_draw (\<lambda>v. uint v mod b) t)"

fun lcg_swaps :: "nat \<Rightarrow> 64 word \<Rightarrow> (int \<times> int \<times> 64 word) list \<times> 64 word" where
  "lcg_swaps 0 t = ([], t)"
| "lcg_swaps (Suc k) t =
     (case lcg_swaps k (lcg_next t) of
        (cs, v) \<Rightarrow> ((int (Suc k), uint (lcg_next t) mod (int (Suc k) + 1), lcg_next t) # cs, v))"

definition lcg_Shuffle :: "int \<Rightarrow> 64 word \<Rightarrow> 64 word shuffle_run" where
  "lcg_Shuffle n t =
     (if n < 0 then \<lparr>swaps = [], finish = Some InvalidArgument, final = t\<rparr>
      else case lcg_swaps (nat n - 1) t of
             (cs, u) \<Rightarrow> \<lparr>swaps = cs, finish = None, final = u\<rparr>)"

definition lcg_Perm :: "int \<Rightarrow> 64 word \<Rightarrow> (panic + int list) \<times> 64 word" where
  "lcg_Perm n t =
     (if n < 0 then (Inl RuntimeError, t)
      else case lcg_swaps (nat n - 1) t of
             (cs, u) \<Rightarrow> (Inr (snd (run_swaps cs [0..n - 1])), u))"

fun lcg_bytes :: "nat \<Rightarrow> 64 word \<Rightarrow> 8 word list \<times> 64 word" where
  "lcg_bytes 0 t = ([], t)"
| "lcg_bytes (Suc k) t =
     (case lcg_bytes k (lcg_next t) of (bs, v) \<Rightarrow> (ucast (lcg_next t) # bs, v))"

definition lcg_Read ::
  "8 word list \<Rightarrow> 64 word \<Rightarrow> (panic + int \<times> string option) \<times> 8 word list \<times> 64 word" where
  "lcg_Read p t = (case lcg_bytes (length p) t of (bs, u) \<Rightarrow> (Inr (int (length p), None), bs, u))"

definition lcg :: "(64 word, int) engine" where
  "lcg =
     \<lparr>rand_Seed = (\<lambda>v t. v),
      rand_Int63 = lcg_draw (\<lambda>v. uint (drop_bit 1 v)),
      rand_Uint32 = lcg_draw (\<lambda>v. ucast (drop_bit 32 v)),
      rand_Uint64 = lcg_draw (\<lambda>v. v),
      rand_Int31 = lcg_draw (\<lambda>v. uint (drop_bit 33 v)),
      rand_Int = lcg_draw (\<lambda>v. uint (drop_bit 1 v)),
      rand_Int63n = lcg_bounded,
      rand_Int31n = lcg_bounded,
      rand_Intn = lcg_bounded,
      rand_Float64 = lcg_draw (\<lambda>v. uint (drop_bit 11 v)),
      rand_Float32 = lcg_draw (\<lambda>v. uint (drop_bit 40 v)),
      rand_Perm = lcg_Perm,
      rand_Shuffle = lcg_Shuffle,
      rand_Read = lcg_Read,
      rand_NormFloat64 = lcg_draw (\<lambda>v. sint v),
      rand_ExpFloat64 = lcg_draw (\<lambda>v. uint v)\<rparr>"

text \<open>A state to start from: the generator in state \<open>t\<close>, the counter at \<open>c\<close>.\<close>

definition world_at :: "'s \<Rightarrow> 64 word \<Rightarrow> (nat \<Rightarrow> 64 word) \<Rightarrow> 's world" where
  "world_at t c e = \<lparr>global = t, calls = c, entropy = e, drawn = 0\<rparr>"

text \<open>Two sequences of entropy values that differ everywhere.\<close>

definition entropy_A :: "nat \<Rightarrow> 64 word" where
  "entropy_A k = 2 * of_nat k + 1"

definition entropy_B :: "nat \<Rightarrow> 64 word" where
  "entropy_B k = 2 * of_nat k + 2"

section \<open>The accounting of a call\<close>

lemma reseed_calls: "calls (reseed E n w) = calls w + word_of_int n"
  by (simp add: reseed_def AddUint64_def Sum64_def)

lemma reseed_entropy: "entropy (reseed E n w) = entropy w"
  by (simp add: reseed_def AddUint64_def Sum64_def)

lemma reseed_drawn:
  "drawn (reseed E n w) = (if calls w + word_of_int n > MaxUint32 then Suc (drawn w) else drawn w)"
  by (simp add: reseed_def AddUint64_def Sum64_def)

lemma reseed_global:
  "global (reseed E n w) =
     (if calls w + word_of_int n > MaxUint32 then rand_Seed E (entropy w (drawn w)) (global w)
      else global w)"
  by (simp add: reseed_def AddUint64_def Sum64_def)

lemmas reseed_fields = reseed_calls reseed_entropy reseed_drawn reseed_global

text \<open>When the package has been initialised the generator is seeded and nothing is counted.\<close>

lemma init_fields:
  "global (init E s0 e) = rand_Seed E (e 0) s0"
  "calls (init E s0 e) = 0"
  "drawn (init E s0 e) = 1"
  by (simp_all add: init_def Sum64_def)

lemma snd_deferred: "snd (deferred E n m w) = reseed E n (w\<lparr>global := snd (m (global w))\<rparr>)"
  by (simp add: deferred_def split: prod.split)

lemma fst_deferred: "fst (deferred E n m w) = fst (m (global w))"
  by (simp add: deferred_def split: prod.split)

lemma snd_returning: "snd (returning f x) = snd x"
  by (simp add: returning_def split: prod.split)

lemma fst_returning: "fst (returning f x) = map_sum id f (fst x)"
  by (simp add: returning_def split: prod.split)

lemma isl_returning: "isl (fst (returning f x)) = isl (fst x)"
  by (cases x; cases "fst x") (simp_all add: returning_def)

lemmas public_defs =
  Int63_def Uint32_def Uint64_def Int31_def Int'_def Int63n_def Int31n_def Intn_def
  Float64_def Float32_def Perm_def NormFloat64_def ExpFloat64_def

lemma call_deferred:
  "\<not> is_Shuffle op \<Longrightarrow>
   snd (call E op w) = reseed E (charge op) (w\<lparr>global := drawn_state E op (global w)\<rparr>)"
  by (cases op) (simp_all add: public_defs snd_returning snd_deferred Read_def split: prod.split)

lemma Shuffle_returns:
  "fst (Shuffle E s w) = Inr u \<Longrightarrow>
   snd (snd (Shuffle E s w)) =
     reseed E (int (length s)) (w\<lparr>global := final (rand_Shuffle E (int (length s)) (global w))\<rparr>)"
  by (auto simp add: Shuffle_def Let_def split: prod.splits option.splits)

lemma Shuffle_panics:
  "fst (Shuffle E s w) = Inl p \<Longrightarrow> \<exists>t. snd (snd (Shuffle E s w)) = w\<lparr>global := t\<rparr>"
  by (auto simp add: Shuffle_def Let_def split: prod.splits option.splits)

lemma call_Shuffle_returns:
  "\<not> isl (fst (call E (OpShuffle s) w)) \<Longrightarrow>
   snd (call E (OpShuffle s) w) =
     reseed E (int (length s)) (w\<lparr>global := final (rand_Shuffle E (int (length s)) (global w))\<rparr>)"
  using Shuffle_returns [of E s w]
  by (cases "fst (Shuffle E s w)") (auto simp add: returning_def split: prod.splits)

lemma call_Shuffle_panics:
  "isl (fst (call E (OpShuffle s) w)) \<Longrightarrow> \<exists>t. snd (call E (OpShuffle s) w) = w\<lparr>global := t\<rparr>"
  using Shuffle_panics [of E s w]
  by (cases "fst (Shuffle E s w)") (auto simp add: returning_def split: prod.splits)

lemma call_accounted:
  "\<not> is_Shuffle op \<or> \<not> isl (fst (call E op w)) \<Longrightarrow>
   snd (call E op w) = reseed E (charge op) (w\<lparr>global := drawn_state E op (global w)\<rparr>)"
proof (cases "is_Shuffle op")
  case False
  then show ?thesis by (rule call_deferred)
next
  case True
  then obtain s where "op = OpShuffle s" by (cases op) simp_all
  moreover assume "\<not> is_Shuffle op \<or> \<not> isl (fst (call E op w))"
  ultimately show ?thesis using True by (simp add: call_Shuffle_returns del: call.simps)
qed

text \<open>
  Claim C1. For every public operation, when the call has completed, its charge \<open>n\<close> has
  been added to the counter \<open>calls\<close> (as \<^verbatim>\<open>uint64(n)\<close>, modulo \<open>2 ^ 64\<close>), and the
  generator has been reseeded with a newly drawn entropy value exactly when the value
  that this addition returned exceeds \<open>2 ^ 32 - 1\<close>: then one entropy value has been
  drawn and the generator is seeded with it, otherwise none has been drawn and the
  generator is in the state its own method left.
\<close>

theorem completed_call_accounts:
  "\<not> isl (fst (call E op w)) \<Longrightarrow>
   calls (snd (call E op w)) = calls w + word_of_int (charge op) \<and>
   entropy (snd (call E op w)) = entropy w \<and>
   (if calls (snd (call E op w)) > MaxUint32
    then drawn (snd (call E op w)) = Suc (drawn w) \<and>
         global (snd (call E op w)) =
           rand_Seed E (entropy w (drawn w)) (drawn_state E op (global w))
    else drawn (snd (call E op w)) = drawn w \<and>
         global (snd (call E op w)) = drawn_state E op (global w))"
  by (simp add: call_accounted reseed_fields del: call.simps)

theorem completed_call_accounts_witness:
  "\<not> isl (fst (call lcg (OpInt63 :: nat operation) (world_at 42 4294967295 entropy_A))) \<and>
   calls (snd (call lcg (OpInt63 :: nat operation) (world_at 42 4294967295 entropy_A))) = 4294967296 \<and>
   drawn (snd (call lcg (OpInt63 :: nat operation) (world_at 42 4294967295 entropy_A))) = 1 \<and>
   global (snd (call lcg (OpInt63 :: nat operation) (world_at 42 4294967295 entropy_A))) = 1"
  using completed_call_accounts [of lcg "OpInt63 :: nat operation" "world_at 42 4294967295 entropy_A"]
  by (simp add: Int63_def deferred_def returning_def lcg_def lcg_draw_def world_at_def
      MaxUint32_def entropy_A_def reseed_def AddUint64_def Sum64_def)

section \<open>Swaps\<close>

lemma swap_mset: "swap i j s = Inr s' \<Longrightarrow> mset s' = mset s"
  by (auto simp add: swap_def mset_swap split: if_splits)

lemma swap_length: "swap i j s = Inr s' \<Longrightarrow> length s' = length s"
  by (auto simp add: swap_def split: if_splits)

lemma swap_in_range:
  "0 \<le> i \<Longrightarrow> i < int (length s) \<Longrightarrow> 0 \<le> j \<Longrightarrow> j < int (length s) \<Longrightarrow> \<exists>s'. swap i j s = Inr s'"
  by (simp add: swap_def)

lemma run_swaps_mset: "mset (snd (run_swaps cs s)) = mset s"
proof (induction cs arbitrary: s)
  case Nil
  show ?case by simp
next
  case (Cons c cs)
  obtain i j t where c: "c = (i, j, t)" by (cases c)
  show ?case
  proof (cases "swap i j s")
    case (Inl p)
    then show ?thesis by (simp add: c)
  next
    case (Inr s')
    then show ?thesis using Cons.IH [of s'] by (simp add: c swap_mset)
  qed
qed

lemma run_swaps_in_range:
  "\<forall>(i, j, t) \<in> set cs. 0 \<le> i \<and> i < int (length s) \<and> 0 \<le> j \<and> j < int (length s) \<Longrightarrow>
   fst (run_swaps cs s) = None"
proof (induction cs arbitrary: s)
  case Nil
  show ?case by simp
next
  case (Cons c cs)
  obtain i j t where c: "c = (i, j, t)" by (cases c)
  from Cons.prems c obtain s' where s': "swap i j s = Inr s'"
    using swap_in_range [of i s j] by auto
  have "\<forall>(i, j, t) \<in> set cs. 0 \<le> i \<and> i < int (length s') \<and> 0 \<le> j \<and> j < int (length s')"
    using Cons.prems swap_length [OF s'] by simp
  then show ?case using Cons.IH [of s'] by (simp add: c s')
qed

lemma swap_short: "length s \<le> 1 \<Longrightarrow> swap i j s = Inr s' \<Longrightarrow> s' = s"
  by (cases s) (auto simp add: swap_def split: if_splits)

lemma run_swaps_short: "length s \<le> 1 \<Longrightarrow> snd (run_swaps cs s) = s"
proof (induction cs)
  case Nil
  show ?case by simp
next
  case (Cons c cs)
  obtain i j t where c: "c = (i, j, t)" by (cases c)
  show ?case
  proof (cases "swap i j s")
    case (Inl p)
    then show ?thesis by (simp add: c)
  next
    case (Inr s')
    with Cons.prems have "s' = s" by (simp add: swap_short)
    then show ?thesis using Cons Inr by (simp add: c)
  qed
qed

lemma Shuffle_slice: "fst (snd (Shuffle E s w)) = snd (run_swaps (swaps (rand_Shuffle E (int (length s)) (global w))) s)"
  by (auto simp add: Shuffle_def Let_def split: prod.splits option.splits)

lemma Shuffle_total:
  assumes "shuffle_contract (rand_Shuffle E)"
  shows "fst (Shuffle E s w) = Inr ()"
proof -
  let ?r = "rand_Shuffle E (int (length s)) (global w)"
  from assms have fin: "finish ?r = None"
    and rng: "\<forall>(i, j, u) \<in> set (swaps ?r). 0 \<le> i \<and> i < int (length s) \<and> 0 \<le> j \<and> j < int (length s)"
    by (simp_all add: shuffle_contract_def)
  from rng have "fst (run_swaps (swaps ?r) s) = None" by (rule run_swaps_in_range)
  with fin show ?thesis
    by (auto simp add: Shuffle_def Let_def split: prod.splits option.splits)
qed

text \<open>
  Claim C7. For every element type and every slice, \<^verbatim>\<open>Shuffle\<close> leaves the slice with the
  same multiset of elements, whatever the generator does; with a generator whose
  \<^verbatim>\<open>Shuffle\<close> keeps its contract the call never fails; and a nil, empty or one-element
  slice is left as it was.
\<close>

theorem Shuffle_keeps_elements:
  "mset (fst (snd (Shuffle E s w))) = mset s \<and>
   (shuffle_contract (rand_Shuffle E) \<longrightarrow> fst (Shuffle E s w) = Inr ()) \<and>
   (length s \<le> 1 \<longrightarrow> fst (snd (Shuffle E s w)) = s)"
  by (simp add: Shuffle_slice run_swaps_mset Shuffle_total run_swaps_short)

section \<open>The generator lcg keeps the contracts\<close>

lemma lcg_bounded_contract: "bounded_contract lcg_bounded"
  by (simp add: bounded_contract_def lcg_bounded_def lcg_draw_def)

lemma lcg_swaps_range:
  "(i, j, u) \<in> set (fst (lcg_swaps k t)) \<Longrightarrow> 0 < i \<and> i \<le> int k \<and> 0 \<le> j \<and> j \<le> int k"
proof (induction k arbitrary: t)
  case 0
  then show ?case by simp
next
  case (Suc k)
  obtain cs v where r: "lcg_swaps k (lcg_next t) = (cs, v)"
    by (cases "lcg_swaps k (lcg_next t)")
  let ?j = "uint (lcg_next t) mod (int (Suc k) + 1)"
  have "?j < int (Suc k) + 1"
    by (rule pos_mod_bound) simp
  moreover have "0 \<le> ?j"
    by (rule pos_mod_sign) simp
  ultimately have m: "0 \<le> ?j \<and> ?j \<le> int (Suc k)"
    by linarith
  from Suc.prems r have "(i = int (Suc k) \<and> j = ?j) \<or> (i, j, u) \<in> set cs"
    by auto
  then show ?case
  proof
    assume "i = int (Suc k) \<and> j = ?j"
    with m show ?thesis by simp
  next
    assume "(i, j, u) \<in> set cs"
    with Suc.IH [of "lcg_next t"] r show ?thesis by simp
  qed
qed

lemma lcg_Shuffle_contract: "shuffle_contract lcg_Shuffle"
  unfolding shuffle_contract_def
proof (intro allI impI conjI)
  fix n :: int and t
  assume n: "0 \<le> n"
  then show "finish (lcg_Shuffle n t) = None"
    by (simp add: lcg_Shuffle_def split: prod.split)
  have "swaps (lcg_Shuffle n t) = fst (lcg_swaps (nat n - 1) t)"
    using n by (simp add: lcg_Shuffle_def split: prod.split)
  then show "\<forall>(i, j, u) \<in> set (swaps (lcg_Shuffle n t)). 0 \<le> i \<and> i < n \<and> 0 \<le> j \<and> j < n"
    using lcg_swaps_range [of _ _ _ "nat n - 1" t] n by fastforce
qed

lemma lcg_Perm_contract: "perm_contract lcg_Perm"
  by (simp add: perm_contract_def lcg_Perm_def run_swaps_mset split: prod.split)

lemma lcg_bytes_length: "length (fst (lcg_bytes k t)) = k"
proof (induction k arbitrary: t)
  case 0
  show ?case by simp
next
  case (Suc k)
  from Suc [of "lcg_next t"] show ?case
    by (cases "lcg_bytes k (lcg_next t)") simp
qed

lemma lcg_Read_contract: "read_contract lcg_Read"
  using lcg_bytes_length by (simp add: read_contract_def lcg_Read_def split: prod.split)

lemma lcg_fields:
  "rand_Int63n lcg = lcg_bounded" "rand_Int31n lcg = lcg_bounded" "rand_Intn lcg = lcg_bounded"
  "rand_Perm lcg = lcg_Perm" "rand_Shuffle lcg = lcg_Shuffle" "rand_Read lcg = lcg_Read"
  "rand_Seed lcg = (\<lambda>v t. v)"
  by (simp_all add: lcg_def)

theorem Shuffle_keeps_elements_witness:
  "shuffle_contract (rand_Shuffle lcg) \<and>
   fst (Shuffle lcg [10, 20, 30, 40, 50 :: nat] (world_at 42 0 entropy_A)) = Inr () \<and>
   fst (snd (Shuffle lcg [10, 20, 30, 40, 50 :: nat] (world_at 42 0 entropy_A))) = [20, 50, 30, 10, 40] \<and>
   mset (fst (snd (Shuffle lcg [10, 20, 30, 40, 50 :: nat] (world_at 42 0 entropy_A)))) = mset [10, 20, 30, 40, 50] \<and>
   fst (snd (Shuffle lcg [10 :: nat] (world_at 42 0 entropy_A))) = [10]"
proof -
  have c: "shuffle_contract (rand_Shuffle lcg)"
    by (simp add: lcg_fields lcg_Shuffle_contract)
  have e: "fst (snd (Shuffle lcg [10, 20, 30, 40, 50 :: nat] (world_at 42 0 entropy_A))) = [20, 50, 30, 10, 40]"
    by code_simp
  have l: "length [10 :: nat] \<le> 1"
    by simp
  from c e l Shuffle_keeps_elements [of lcg "[10, 20, 30, 40, 50 :: nat]" "world_at 42 0 entropy_A"]
    Shuffle_keeps_elements [of lcg "[10 :: nat]" "world_at 42 0 entropy_A"]
  show ?thesis by simp
qed

section \<open>What the functions return\<close>

text \<open>
  Claim C8. For every buffer \<open>p\<close>, \<^verbatim>\<open>Read(p)\<close> charges \<open>len(p) div 8\<close> units to the
  counter, so that a buffer of fewer than 8 bytes, one of 7 bytes for instance, charges
  nothing.
\<close>

theorem Read_charges_eighth:
  "calls (snd (snd (Read E p w))) = calls w + word_of_int (int (length p) div 8) \<and>
   (length p < 8 \<longrightarrow> calls (snd (snd (Read E p w))) = calls w)"
  by (simp add: Read_def reseed_calls split: prod.split)

theorem Read_charges_eighth_witness:
  "length [1, 2, 3, 4, 5, 6, 7 :: 8 word] < 8 \<and>
   calls (snd (snd (Read lcg [1, 2, 3, 4, 5, 6, 7] (world_at 42 5 entropy_A)))) = 5 \<and>
   calls (snd (snd (Read lcg [1, 2, 3, 4, 5, 6, 7, 8, 9, 10, 11, 12, 13, 14, 15, 16, 17]
     (world_at 42 5 entropy_A)))) = 7"
  using Read_charges_eighth [of lcg "[1, 2, 3, 4, 5, 6, 7]" "world_at 42 5 entropy_A"]
    Read_charges_eighth [of lcg "[1, 2, 3, 4, 5, 6, 7, 8, 9, 10, 11, 12, 13, 14, 15, 16, 17]"
      "world_at 42 5 entropy_A"]
  by (simp add: world_at_def)

text \<open>
  Claim C3. With bounded generators of the engine that keep their contract, each of
  \<^verbatim>\<open>Int63n\<close>, \<^verbatim>\<open>Int31n\<close> and \<^verbatim>\<open>Intn\<close> panics with an invalid argument for every bound
  \<open>b \<le> 0\<close>, and for every \<open>b > 0\<close> returns a value of \<open>[0, b)\<close>.
\<close>

theorem bounded_generators:
  fixes E :: "('s, 'f) engine"
  assumes "bounded_contract (rand_Int63n E)"
    and "bounded_contract (rand_Int31n E)"
    and "bounded_contract (rand_Intn E)"
  shows "\<forall>f \<in> {Int63n E, Int31n E, Intn E}.
           (b \<le> 0 \<longrightarrow> fst (f b w) = Inl InvalidArgument) \<and>
           (0 < b \<longrightarrow> (\<exists>v. fst (f b w) = Inr v \<and> 0 \<le> v \<and> v < b))"
proof -
  have key: "(b \<le> 0 \<longrightarrow> fst (m b (global w)) = Inl InvalidArgument) \<and>
        (0 < b \<longrightarrow> (\<exists>v. fst (m b (global w)) = Inr v \<and> 0 \<le> v \<and> v < b))"
    if "bounded_contract m" for m :: "int \<Rightarrow> 's \<Rightarrow> (panic + int) \<times> 's"
    using that [unfolded bounded_contract_def, rule_format, of b "global w"]
    by (auto split: if_splits)
  from key [OF assms(1)] key [OF assms(2)] key [OF assms(3)] show ?thesis
    by (simp add: Int63n_def Int31n_def Intn_def fst_deferred)
qed

theorem bounded_generators_witness:
  "bounded_contract (rand_Int63n lcg) \<and> bounded_contract (rand_Int31n lcg) \<and>
   bounded_contract (rand_Intn lcg) \<and>
   fst (Int63n lcg 0 (world_at 42 0 entropy_A)) = Inl InvalidArgument \<and>
   fst (Int31n lcg (- 3) (world_at 42 0 entropy_A)) = Inl InvalidArgument \<and>
   fst (Intn lcg 10 (world_at 42 0 entropy_A)) = Inr 3"
proof -
  have c: "bounded_contract (rand_Int63n lcg)" "bounded_contract (rand_Int31n lcg)"
    "bounded_contract (rand_Intn lcg)"
    by (simp_all add: lcg_fields lcg_bounded_contract)
  have e: "fst (Intn lcg 10 (world_at 42 0 entropy_A)) = Inr 3"
    by (simp add: Intn_def fst_deferred lcg_fields lcg_bounded_def lcg_draw_def lcg_next_def
        world_at_def)
  from c e bounded_generators [OF c, of 0 "world_at 42 0 entropy_A"]
    bounded_generators [OF c, of "- 3" "world_at 42 0 entropy_A"]
  show ?thesis by simp
qed

lemma fst_Read: "fst (Read E p w) = fst (rand_Read E p (global w))"
  by (simp add: Read_def split: prod.split)

text \<open>
  Claim C4. With a \<^verbatim>\<open>Read\<close> of the engine that keeps its contract, \<^verbatim>\<open>Read(p)\<close> returns
  \<^verbatim>\<open>(len(p), nil)\<close> for every buffer \<open>p\<close>, the nil or empty one included.
\<close>

theorem Read_returns_length:
  assumes "read_contract (rand_Read E)"
  shows "fst (Read E p w) = Inr (int (length p), None) \<and> fst (Read E [] w) = Inr (0, None)"
  using assms [unfolded read_contract_def, rule_format, of p "global w"]
    assms [unfolded read_contract_def, rule_format, of "[]" "global w"]
  by (simp add: fst_Read)

theorem Read_returns_length_witness:
  "read_contract (rand_Read lcg) \<and>
   fst (Read lcg [0, 0, 0] (world_at 42 0 entropy_A)) = Inr (3, None) \<and>
   fst (Read lcg [] (world_at 42 0 entropy_A)) = Inr (0, None)"
proof -
  have c: "read_contract (rand_Read lcg)"
    by (simp add: lcg_fields lcg_Read_contract)
  from c Read_returns_length [OF c, of "[0, 0, 0]" "world_at 42 0 entropy_A"]
  show ?thesis by simp
qed

text \<open>
  Claim C6. With a \<^verbatim>\<open>Perm\<close> of the engine that keeps its contract and \<open>n \<ge> 0\<close>, \<^verbatim>\<open>Perm(n)\<close>
  returns a slice of \<open>n\<close> distinct elements whose set is \<open>{0, \<dots>, n - 1}\<close>, the empty
  slice for \<open>n = 0\<close>, and charges \<open>n\<close> units to the counter.
\<close>

theorem Perm_is_permutation:
  assumes "perm_contract (rand_Perm E)" and "0 \<le> n"
  shows "\<exists>xs. fst (Perm E n w) = Inr xs \<and> length xs = nat n \<and> distinct xs \<and>
           set xs = {0..<n} \<and> (n = 0 \<longrightarrow> xs = []) \<and>
           calls (snd (Perm E n w)) = calls w + word_of_int n"
proof -
  from assms obtain xs where xs: "fst (rand_Perm E n (global w)) = Inr xs"
    and m: "mset xs = mset [0..n - 1]"
    unfolding perm_contract_def by blast
  from m have "length xs = length [0..n - 1]"
    by (rule mset_eq_length)
  with assms(2) have l: "length xs = nat n"
    by simp
  from m have d: "distinct xs"
    using mset_eq_imp_distinct_iff [OF m] by simp
  from m have "set xs = set [0..n - 1]"
    by (rule mset_eq_setD)
  then have s: "set xs = {0..<n}"
    by auto
  from xs l d s show ?thesis
    by (auto simp add: Perm_def fst_deferred snd_deferred reseed_calls)
qed

theorem Perm_is_permutation_witness:
  "perm_contract (rand_Perm lcg) \<and> (0 :: int) \<le> 6 \<and>
   fst (Perm lcg 6 (world_at 42 0 entropy_A)) = Inr [4, 2, 1, 3, 0, 5] \<and>
   set [4, 2, 1, 3, 0, 5] = {0..<6 :: int} \<and>
   calls (snd (Perm lcg 6 (world_at 42 0 entropy_A))) = 6 \<and>
   fst (Perm lcg 0 (world_at 42 0 entropy_A)) = Inr []"
proof -
  have c: "perm_contract (rand_Perm lcg)"
    by (simp add: lcg_fields lcg_Perm_contract)
  have e: "fst (Perm lcg 6 (world_at 42 0 entropy_A)) = Inr [4, 2, 1, 3, 0, 5]"
    by code_simp
  from c e Perm_is_permutation [OF c, of 6 "world_at 42 0 entropy_A"]
    Perm_is_permutation [OF c, of 0 "world_at 42 0 entropy_A"]
  show ?thesis by (auto simp add: world_at_def)
qed

section \<open>The counter over the lifetime of the process\<close>

lemma uint_add_charge:
  fixes c :: "64 word"
  assumes "0 \<le> n" and "uint c + n < 2 ^ 64"
  shows "uint (c + word_of_int n) = uint c + n"
proof -
  have "0 \<le> uint c" by simp
  with assms have n: "n < 2 ^ 64" by linarith
  have "uint (c + word_of_int n) = (uint c + n) mod 2 ^ 64"
    by (simp add: uint_word_ariths uint_word_of_int mod_add_right_eq)
  also have "\<dots> = uint c + n"
    using assms by (simp add: mod_pos_pos_trivial)
  finally show ?thesis .
qed

lemma call_Shuffle_panics_fields:
  assumes "isl (fst (call E (OpShuffle s) w))"
  shows "calls (snd (call E (OpShuffle s) w)) = calls w"
    and "drawn (snd (call E (OpShuffle s) w)) = drawn w"
    and "entropy (snd (call E (OpShuffle s) w)) = entropy w"
proof -
  from call_Shuffle_panics [OF assms] obtain t where "snd (call E (OpShuffle s) w) = w\<lparr>global := t\<rparr>" ..
  then show "calls (snd (call E (OpShuffle s) w)) = calls w"
    and "drawn (snd (call E (OpShuffle s) w)) = drawn w"
    and "entropy (snd (call E (OpShuffle s) w)) = entropy w"
    by simp_all
qed

lemma is_ShuffleE: "is_Shuffle op \<Longrightarrow> (\<And>s. op = OpShuffle s \<Longrightarrow> P) \<Longrightarrow> P"
  by (cases op) simp_all

lemma call_Shuffle_total:
  assumes "shuffle_contract (rand_Shuffle E)"
  shows "\<not> isl (fst (call E (OpShuffle s) w))"
  using Shuffle_total [OF assms, of s w]
  by (cases "Shuffle E s w") (simp add: returning_def)

lemma call_agree:
  assumes "global w1 = global w2" and "calls w1 = calls w2"
  shows "fst (call E op w1) = fst (call E op w2)"
    and "calls (snd (call E op w1)) = calls (snd (call E op w2))"
    and "calls (snd (call E op w1)) \<le> MaxUint32 \<or> entropy w1 (drawn w1) = entropy w2 (drawn w2) \<Longrightarrow>
         global (snd (call E op w1)) = global (snd (call E op w2))"
  using assms
  by (cases op;
      auto simp add: public_defs deferred_def returning_def Read_def Shuffle_def Let_def
        reseed_fields not_less
      split: prod.splits option.splits)+

lemma call_counter_cases:
  "calls (snd (call E op w)) = calls w \<or>
   calls (snd (call E op w)) = calls w + word_of_int (charge op)"
proof (cases "\<not> is_Shuffle op \<or> \<not> isl (fst (call E op w))")
  case True
  then show ?thesis by (simp add: call_accounted reseed_calls del: call.simps)
next
  case False
  then have s: "is_Shuffle op" and p: "isl (fst (call E op w))"
    by simp_all
  from s obtain xs where "op = OpShuffle xs"
    by (rule is_ShuffleE)
  with p show ?thesis
    by (simp add: call_Shuffle_panics_fields del: call.simps)
qed

lemma call_accounted_contract:
  assumes "\<not> is_Shuffle op \<or> \<not> isl (fst (call E op w)) \<or> shuffle_contract (rand_Shuffle E)"
  shows "snd (call E op w) = reseed E (charge op) (w\<lparr>global := drawn_state E op (global w)\<rparr>)"
proof -
  from assms have "\<not> is_Shuffle op \<or> \<not> isl (fst (call E op w))"
    using call_Shuffle_total [of E _ w] by (cases op) (auto simp del: call.simps)
  then show ?thesis by (rule call_accounted)
qed

text \<open>
  The charge of \<^verbatim>\<open>Perm\<close> is its argument as it comes: for a negative size, for which
  the generator has nothing to return, \<^verbatim>\<open>uint64(n)\<close> is \<open>2 ^ 64 + n\<close> and the counter
  moves back. One call of \<^verbatim>\<open>Perm(-1)\<close> takes the counter from 0 to \<open>2 ^ 64 - 1\<close>.
\<close>

lemma Perm_negative_size: "calls (snd (Perm E (- 1) w)) = calls w - 1"
  by (simp add: Perm_def snd_deferred reseed_calls)

subsection \<open>The counter does not go back, unless it wraps\<close>

text \<open>
  Claim C2, amended. Reseeding does not reset the counter: the only write to \<open>calls\<close> is
  the addition of the charge \<open>n\<close> modulo \<open>2 ^ 64\<close>, so that a call leaves the counter at
  \<open>calls + uint64(n)\<close>, also when it reseeds (or as it was, had the call been left before
  its accounting). A call whose accounting runs reseeds exactly when the counter after
  the addition exceeds \<open>2 ^ 32 - 1\<close>; with a \<^verbatim>\<open>Shuffle\<close> of the engine that keeps its
  contract that is every call. Over a call whose charge is not negative and whose
  addition does not wrap around (\<open>calls + n < 2 ^ 64\<close>) the counter does not decrease.
\<close>

theorem counter_grows_without_wrap:
  "(calls (snd (call E op w)) = calls w \<or>
    calls (snd (call E op w)) = calls w + word_of_int (charge op)) \<and>
   (\<not> is_Shuffle op \<or> \<not> isl (fst (call E op w)) \<or> shuffle_contract (rand_Shuffle E) \<longrightarrow>
      calls (snd (call E op w)) = calls w + word_of_int (charge op) \<and>
      (if MaxUint32 < calls (snd (call E op w))
       then drawn (snd (call E op w)) = Suc (drawn w) \<and>
            global (snd (call E op w)) =
              rand_Seed E (entropy w (drawn w)) (drawn_state E op (global w))
       else drawn (snd (call E op w)) = drawn w)) \<and>
   (0 \<le> charge op \<and> uint (calls w) + charge op < 2 ^ 64 \<longrightarrow>
      calls w \<le> calls (snd (call E op w)) \<and>
      (uint (calls (snd (call E op w))) = uint (calls w) \<or>
       uint (calls (snd (call E op w))) = uint (calls w) + charge op))"
proof (intro conjI impI)
  show "calls (snd (call E op w)) = calls w \<or>
        calls (snd (call E op w)) = calls w + word_of_int (charge op)"
    by (rule call_counter_cases)
next
  assume "\<not> is_Shuffle op \<or> \<not> isl (fst (call E op w)) \<or> shuffle_contract (rand_Shuffle E)"
  then have w': "snd (call E op w) =
      reseed E (charge op) (w\<lparr>global := drawn_state E op (global w)\<rparr>)"
    by (rule call_accounted_contract)
  show "calls (snd (call E op w)) = calls w + word_of_int (charge op)"
    by (simp add: w' reseed_calls)
  show "if MaxUint32 < calls (snd (call E op w))
       then drawn (snd (call E op w)) = Suc (drawn w) \<and>
            global (snd (call E op w)) =
              rand_Seed E (entropy w (drawn w)) (drawn_state E op (global w))
       else drawn (snd (call E op w)) = drawn w"
    by (simp add: w' reseed_fields)
next
  assume a: "0 \<le> charge op \<and> uint (calls w) + charge op < 2 ^ 64"
  then have u: "uint (calls w + word_of_int (charge op)) = uint (calls w) + charge op"
    by (simp add: uint_add_charge)
  from call_counter_cases [of E op w]
  show u': "uint (calls (snd (call E op w))) = uint (calls w) \<or>
        uint (calls (snd (call E op w))) = uint (calls w) + charge op"
    using u by auto
  with a have "uint (calls w) \<le> uint (calls (snd (call E op w)))"
    by auto
  then show "calls w \<le> calls (snd (call E op w))"
    by (simp add: word_le_def)
qed

theorem counter_grows_without_wrap_witness:
  "\<not> is_Shuffle (OpPerm 6 :: nat operation) \<and>
   (0 :: int) \<le> charge (OpPerm 6 :: nat operation) \<and>
   uint (calls (world_at (42 :: 64 word) 4294967290 entropy_A)) + charge (OpPerm 6 :: nat operation) < 2 ^ 64 \<and>
   calls (world_at (42 :: 64 word) 4294967290 entropy_A)
     \<le> calls (snd (call lcg (OpPerm 6 :: nat operation) (world_at (42 :: 64 word) 4294967290 entropy_A))) \<and>
   calls (snd (call lcg (OpPerm 6 :: nat operation) (world_at (42 :: 64 word) 4294967290 entropy_A))) = 4294967296 \<and>
   drawn (snd (call lcg (OpPerm 6 :: nat operation) (world_at (42 :: 64 word) 4294967290 entropy_A))) = 1 \<and>
   global (snd (call lcg (OpPerm 6 :: nat operation) (world_at (42 :: 64 word) 4294967290 entropy_A))) = 1"
proof -
  let ?w = "world_at (42 :: 64 word) 4294967290 entropy_A"
  let ?w' = "snd (call lcg (OpPerm 6 :: nat operation) ?w)"
  note T = counter_grows_without_wrap [of lcg "OpPerm 6 :: nat operation" ?w]
  have h: "\<not> is_Shuffle (OpPerm 6 :: nat operation)"
    and g: "(0 :: int) \<le> charge (OpPerm 6 :: nat operation) \<and>
      uint (calls ?w) + charge (OpPerm 6 :: nat operation) < 2 ^ 64"
    by (simp_all add: world_at_def)
  note A = T [THEN conjunct2, THEN conjunct1, rule_format, OF disjI1, OF h]
  note B = T [THEN conjunct2, THEN conjunct2, rule_format, OF g]
  from A [THEN conjunct1] have c: "calls ?w' = 4294967296"
    by (simp add: world_at_def)
  have gt: "MaxUint32 < calls ?w'"
    by (simp only: c) (simp add: MaxUint32_def)
  have e: "Suc (drawn ?w) = 1"
    "rand_Seed lcg (entropy ?w (drawn ?w)) (drawn_state lcg (OpPerm 6 :: nat operation) (global ?w)) = 1"
    by (simp_all add: world_at_def lcg_fields entropy_A_def)
  from A [THEN conjunct2] gt have d: "drawn ?w' = 1 \<and> global ?w' = 1"
    by (simp only: if_True e)
  from B [THEN conjunct1] have m: "calls ?w \<le> calls ?w'" .
  from h g m c d show ?thesis
    by blast
qed

text \<open>
  The counter is not monotone without that condition: at \<open>calls = 2 ^ 64 - 1\<close> the
  addition of \<^verbatim>\<open>Int63\<close> wraps around and leaves the counter at 0.
\<close>

theorem counter_wraps_counterexample:
  "calls (snd (call lcg (OpInt63 :: nat operation) (world_at 42 18446744073709551615 entropy_A))) = 0 \<and>
   calls (snd (call lcg (OpInt63 :: nat operation) (world_at 42 18446744073709551615 entropy_A)))
     < calls (world_at 42 18446744073709551615 entropy_A)"
  by (simp add: call_deferred reseed_calls world_at_def del: call.simps)

subsection \<open>Past the threshold\<close>

text \<open>
  Claim C9, amended. Once the counter exceeds \<open>2 ^ 32 - 1\<close>, every operation whose
  accounting runs (every call but a \<^verbatim>\<open>Shuffle\<close> left by a panic) and whose addition does
  not wrap around (charge \<open>n \<ge> 0\<close> and \<open>calls + n < 2 ^ 64\<close>) reseeds the generator with a
  new entropy value; an operation that charges 0 units is among them.
\<close>

theorem exceeded_counter_reseeds:
  assumes "MaxUint32 < calls w"
    and "0 \<le> charge op" and "uint (calls w) + charge op < 2 ^ 64"
    and "\<not> is_Shuffle op \<or> \<not> isl (fst (call E op w))"
  shows "drawn (snd (call E op w)) = Suc (drawn w) \<and>
         global (snd (call E op w)) =
           rand_Seed E (entropy w (drawn w)) (drawn_state E op (global w))"
proof -
  have "uint (calls w + word_of_int (charge op)) = uint (calls w) + charge op"
    using assms(2,3) by (rule uint_add_charge)
  with assms(2) have "uint (calls w) \<le> uint (calls w + word_of_int (charge op))"
    by simp
  then have "calls w \<le> calls w + word_of_int (charge op)"
    by (simp add: word_le_def)
  with assms(1) have "MaxUint32 < calls w + word_of_int (charge op)"
    by simp
  then show ?thesis
    by (simp add: call_accounted [OF assms(4)] reseed_fields)
qed

theorem exceeded_counter_reseeds_witness:
  "MaxUint32 < calls (world_at 42 4294967296 entropy_A) \<and>
   charge (OpRead [1, 2, 3, 4, 5, 6, 7] :: nat operation) = 0 \<and>
   drawn (world_at 42 4294967296 entropy_A) = 0 \<and>
   drawn (snd (call lcg (OpRead [1, 2, 3, 4, 5, 6, 7] :: nat operation)
     (world_at 42 4294967296 entropy_A))) = 1 \<and>
   global (snd (call lcg (OpRead [1, 2, 3, 4, 5, 6, 7] :: nat operation)
     (world_at 42 4294967296 entropy_A))) = entropy_A 0"
  using exceeded_counter_reseeds [of "world_at 42 4294967296 entropy_A"
      "OpRead [1, 2, 3, 4, 5, 6, 7] :: nat operation" lcg]
  by (simp add: MaxUint32_def world_at_def lcg_fields del: call.simps)

text \<open>
  Without that condition an operation after the threshold need not reseed: at
  \<open>calls = 2 ^ 64 - 1\<close> the addition of \<^verbatim>\<open>Uint64\<close> returns 0, no entropy is drawn and
  the generator keeps the state its own method left.
\<close>

theorem wrapped_counter_counterexample:
  "MaxUint32 < calls (world_at 42 18446744073709551615 entropy_A) \<and>
   calls (snd (call lcg (OpUint64 :: nat operation) (world_at 42 18446744073709551615 entropy_A))) = 0 \<and>
   drawn (snd (call lcg (OpUint64 :: nat operation) (world_at 42 18446744073709551615 entropy_A)))
     = drawn (world_at 42 18446744073709551615 entropy_A) \<and>
   global (snd (call lcg (OpUint64 :: nat operation) (world_at 42 18446744073709551615 entropy_A)))
     = lcg_next 42"
  by (simp add: call_deferred reseed_fields world_at_def MaxUint32_def lcg_def lcg_draw_def
      del: call.simps)

subsection \<open>The ways out of a call\<close>

text \<open>
  Claim C5. For every public operation the accounting of its charge runs on every way out
  of the call, a return or a panic: whatever the outcome, the state after the call is
  the one \<^verbatim>\<open>reseed\<close> leaves, with the charge added to the counter. Every function but
  \<^verbatim>\<open>Shuffle\<close> defers \<^verbatim>\<open>reseed\<close>, for any engine. \<^verbatim>\<open>Shuffle\<close> calls it after
  \<^verbatim>\<open>global.Shuffle\<close>, and with a \<^verbatim>\<open>Shuffle\<close> of the engine that keeps its contract the
  only way out of it is the return.
\<close>

theorem accounting_on_exit_paths:
  assumes "\<not> is_Shuffle op \<or> shuffle_contract (rand_Shuffle E)"
  shows "snd (call E op w) = reseed E (charge op) (w\<lparr>global := drawn_state E op (global w)\<rparr>) \<and>
         calls (snd (call E op w)) = calls w + word_of_int (charge op) \<and>
         (is_Shuffle op \<longrightarrow> \<not> isl (fst (call E op w)))"
proof (intro conjI impI)
  from assms
  show w': "snd (call E op w) = reseed E (charge op) (w\<lparr>global := drawn_state E op (global w)\<rparr>)"
    by (auto intro: call_accounted_contract)
  show "calls (snd (call E op w)) = calls w + word_of_int (charge op)"
    by (simp add: w' reseed_calls)
next
  assume s: "is_Shuffle op"
  with assms have c: "shuffle_contract (rand_Shuffle E)"
    by simp
  from s obtain xs where "op = OpShuffle xs"
    by (rule is_ShuffleE)
  with c show "\<not> isl (fst (call E op w))"
    by (simp add: call_Shuffle_total del: call.simps)
qed

theorem accounting_on_exit_paths_witness:
  "\<not> is_Shuffle (OpInt63n 0 :: nat operation) \<and>
   shuffle_contract (rand_Shuffle lcg) \<and>
   fst (call lcg (OpInt63n 0 :: nat operation) (world_at 42 5 entropy_A)) = Inl InvalidArgument \<and>
   calls (snd (call lcg (OpInt63n 0 :: nat operation) (world_at 42 5 entropy_A))) = 6 \<and>
   fst (call lcg (OpPerm (- 2) :: nat operation) (world_at 42 5 entropy_A)) = Inl RuntimeError \<and>
   calls (snd (call lcg (OpPerm (- 2) :: nat operation) (world_at 42 5 entropy_A))) = 5 + word_of_int (- 2) \<and>
   fst (call lcg (OpShuffle [10, 20, 30 :: nat]) (world_at 42 5 entropy_A)) = Inr (RetShuffle [20, 10, 30]) \<and>
   calls (snd (call lcg (OpShuffle [10, 20, 30 :: nat]) (world_at 42 5 entropy_A))) = 8"
proof -
  have h: "\<not> is_Shuffle (OpInt63n 0 :: nat operation)" "\<not> is_Shuffle (OpPerm (- 2) :: nat operation)"
    by simp_all
  have k: "shuffle_contract (rand_Shuffle lcg)"
    by (simp add: lcg_fields lcg_Shuffle_contract)
  have a: "fst (call lcg (OpInt63n 0 :: nat operation) (world_at 42 5 entropy_A)) = Inl InvalidArgument"
    by (simp add: Int63n_def fst_deferred fst_returning lcg_fields lcg_bounded_def)
  have b: "fst (call lcg (OpPerm (- 2) :: nat operation) (world_at 42 5 entropy_A)) = Inl RuntimeError"
    by (simp add: Perm_def fst_deferred fst_returning lcg_fields lcg_Perm_def)
  have c: "fst (call lcg (OpShuffle [10, 20, 30 :: nat]) (world_at 42 5 entropy_A)) = Inr (RetShuffle [20, 10, 30])"
    by code_simp
  from h k a b c
    accounting_on_exit_paths [of "OpInt63n 0 :: nat operation" lcg "world_at 42 5 entropy_A"]
    accounting_on_exit_paths [of "OpPerm (- 2) :: nat operation" lcg "world_at 42 5 entropy_A"]
    accounting_on_exit_paths [of "OpShuffle [10, 20, 30 :: nat]" lcg "world_at 42 5 entropy_A"]
  show ?thesis
    by (simp add: world_at_def reseed_calls del: call.simps)
qed

subsection \<open>What a call depends on\<close>

text \<open>
  Claim C10, amended. From two states with the same generator state and the same
  counter, a public operation with the same arguments has the same outcome (return value
  or panic) and leaves the same counter. It leaves the same generator state when it does
  not reseed (the counter after the addition is at most \<open>2 ^ 32 - 1\<close>), or when the
  entropy value that the reseeding would draw is the same in both.
\<close>

theorem determined_up_to_entropy:
  assumes "global w1 = global w2" and "calls w1 = calls w2"
  shows "fst (call E op w1) = fst (call E op w2) \<and>
         calls (snd (call E op w1)) = calls (snd (call E op w2)) \<and>
         (calls (snd (call E op w1)) \<le> MaxUint32 \<or>
          entropy w1 (drawn w1) = entropy w2 (drawn w2) \<longrightarrow>
            global (snd (call E op w1)) = global (snd (call E op w2)))"
  using call_agree [OF assms, of E op] by blast

theorem determined_up_to_entropy_witness:
  "global (world_at 42 7 entropy_A) = global (world_at 42 7 entropy_B) \<and>
   calls (world_at 42 7 entropy_A) = calls (world_at 42 7 entropy_B) \<and>
   fst (call lcg (OpInt63 :: nat operation) (world_at 42 7 entropy_A))
     = fst (call lcg (OpInt63 :: nat operation) (world_at 42 7 entropy_B)) \<and>
   calls (snd (call lcg (OpInt63 :: nat operation) (world_at 42 7 entropy_A))) = 8 \<and>
   global (snd (call lcg (OpInt63 :: nat operation) (world_at 42 7 entropy_A)))
     = global (snd (call lcg (OpInt63 :: nat operation) (world_at 42 7 entropy_B)))"
proof -
  have h: "global (world_at 42 7 entropy_A) = global (world_at 42 7 entropy_B)"
    "calls (world_at 42 7 entropy_A) = calls (world_at 42 7 entropy_B)"
    by (simp_all add: world_at_def)
  have c: "calls (snd (call lcg (OpInt63 :: nat operation) (world_at 42 7 entropy_A))) = 8"
    by (simp add: call_deferred reseed_calls world_at_def del: call.simps)
  from h c determined_up_to_entropy [OF h, of lcg "OpInt63 :: nat operation"]
  show ?thesis
    by (simp add: MaxUint32_def del: call.simps)
qed

text \<open>
  The generator state and the counter alone do not determine the state after a call that
  reseeds: from the counter \<open>2 ^ 32 - 1\<close>, \<^verbatim>\<open>Int63\<close> leaves the generator seeded with the
  entropy value drawn, 1 in one run and 2 in the other.
\<close>

theorem entropy_decides_counterexample:
  "global (world_at 42 4294967295 entropy_A) = global (world_at 42 4294967295 entropy_B) \<and>
   calls (world_at 42 4294967295 entropy_A) = calls (world_at 42 4294967295 entropy_B) \<and>
   global (snd (call lcg (OpInt63 :: nat operation) (world_at 42 4294967295 entropy_A))) = 1 \<and>
   global (snd (call lcg (OpInt63 :: nat operation) (world_at 42 4294967295 entropy_B))) = 2 \<and>
   global (snd (call lcg (OpInt63 :: nat operation) (world_at 42 4294967295 entropy_A)))
     \<noteq> global (snd (call lcg (OpInt63 :: nat operation) (world_at 42 4294967295 entropy_B)))"
  by (simp add: call_deferred reseed_fields world_at_def MaxUint32_def lcg_fields
      entropy_A_def entropy_B_def del: call.simps)

end
